theory Spec2Isabelle
  imports Complex_Main
begin

section \<open>Voxel island: terrain generator and camera controller of block.tsx\<close>

text \<open>
  JavaScript numbers are modelled as mathematical numbers: the loop counters \<open>x\<close>,
  \<open>z\<close>, \<open>y\<close>, \<open>dx\<close>, \<open>dz\<close>, \<open>dy\<close> and the voxel coordinates are \<open>int\<close> (they
  only ever hold integers: \<open>size / 2\<close> is 25), every other number is \<open>real\<close>.
  \<open>Math.random()\<close> is an injected sequence of draws \<open>rnd :: nat \<Rightarrow> real\<close>; the
  generator threads the number of draws it has consumed next to \<open>voxelData\<close>.
\<close>

subsection \<open>Terrain generator\<close>

record voxel =
  position :: "int \<times> int \<times> int"
  color :: string

abbreviation dirt :: string where "dirt \<equiv> ''#8B4513''"
abbreviation grass :: string where "grass \<equiv> ''#228B22''"
abbreviation sand :: string where "sand \<equiv> ''#F4A460''"
abbreviation bedrock :: string where "bedrock \<equiv> ''#696969''"

type_synonym gen_state = "voxel list \<times> nat"

definition noise :: "real \<Rightarrow> real \<Rightarrow> real" where
  "noise x z = sin (x * 0.1) * cos (z * 0.1) * 2 +
               sin (x * 0.05) * cos (z * 0.05) * 4 +
               sin (x * 0.02) * cos (z * 0.02) * 8"

definition size_island :: int where
  "size_island = 50"

definition centerX :: int where
  "centerX = size_island div 2"

definition centerZ :: int where
  "centerZ = size_island div 2"

definition distFromCenter :: "int \<Rightarrow> int \<Rightarrow> real" where
  "distFromCenter x z = sqrt (real_of_int ((x - centerX) ^ 2 + (z - centerZ) ^ 2))"

definition maxDist :: real where
  "maxDist = real_of_int size_island * 0.4"

definition height :: "int \<Rightarrow> int \<Rightarrow> real" where
  "height x z =
     max 0 (noise (real_of_int x) (real_of_int z) * (1 - distFromCenter x z / maxDist))"

definition voxelHeight :: "int \<Rightarrow> int \<Rightarrow> int" where
  "voxelHeight x z = \<lfloor>height x z\<rfloor> + 1"

text \<open>The colour chosen in the body of the \<open>y\<close> loop (lines 48 to 57).\<close>

definition color_at :: "int \<Rightarrow> int \<Rightarrow> string" where
  "color_at vh y =
     (if y = vh \<and> y > 3 then ''#228B22''
      else if y = vh \<and> y \<le> 3 then ''#F4A460''
      else if y = 0 then ''#696969''
      else ''#8B4513'')"

text \<open>One candidate leaf cell: the body of the \<open>dy\<close> loop (lines 74 to 79).\<close>

definition leaf :: "(nat \<Rightarrow> real) \<Rightarrow> int \<Rightarrow> int \<Rightarrow> int \<Rightarrow> int \<Rightarrow> int \<Rightarrow> int \<Rightarrow> gen_state \<Rightarrow> gen_state" where
  "leaf rnd x y z dx dz dy st =
     (case st of (voxelData, k) \<Rightarrow>
        if rnd k < 0.7
        then (voxelData @ [\<lparr>position = (x - centerX + dx, y + 3 + dy, z - centerZ + dz),
                             color = ''#228B22''\<rparr>], Suc k)
        else (voxelData, Suc k))"

text \<open>A tree on the column \<open>(x, z)\<close> whose top is at \<open>y\<close> (lines 61 to 82).\<close>

definition tree :: "(nat \<Rightarrow> real) \<Rightarrow> int \<Rightarrow> int \<Rightarrow> int \<Rightarrow> gen_state \<Rightarrow> gen_state" where
  "tree rnd x y z st =
     (case st of (voxelData, k) \<Rightarrow>
        fold (\<lambda>dx. fold (\<lambda>dz. fold (\<lambda>dy. leaf rnd x y z dx dz dy) [0..1]) [-1..1]) [-1..1]
          (voxelData @ [\<lparr>position = (x - centerX, y + 1, z - centerZ), color = ''#8B4513''\<rparr>,
                        \<lparr>position = (x - centerX, y + 2, z - centerZ), color = ''#8B4513''\<rparr>], k))"

text \<open>
  The body of the \<open>y\<close> loop (lines 48 to 88). \<open>Math.random()\<close> is drawn only when
  \<open>y === voxelHeight && y > 5\<close> holds, as \<open>&&\<close> evaluates from the left.
\<close>

definition level :: "(nat \<Rightarrow> real) \<Rightarrow> int \<Rightarrow> int \<Rightarrow> int \<Rightarrow> int \<Rightarrow> gen_state \<Rightarrow> gen_state" where
  "level rnd x z vh y st =
     (let st1 = (if y = vh \<and> y > 5
                 then (case st of (voxelData, k) \<Rightarrow>
                         if rnd k < 0.02 then tree rnd x y z (voxelData, Suc k)
                         else (voxelData, Suc k))
                 else st)
      in (fst st1 @ [\<lparr>position = (x - centerX, y, z - centerZ), color = color_at vh y\<rparr>],
          snd st1))"

text \<open>The \<open>y\<close> loop of a column of height \<open>vh\<close> (line 47).\<close>

definition column :: "(nat \<Rightarrow> real) \<Rightarrow> int \<Rightarrow> int \<Rightarrow> int \<Rightarrow> gen_state \<Rightarrow> gen_state" where
  "column rnd x z vh st = fold (level rnd x z vh) [0..vh] st"

text \<open>The body of the \<open>z\<close> loop (lines 39 to 90).\<close>

definition cell :: "(nat \<Rightarrow> real) \<Rightarrow> int \<Rightarrow> int \<Rightarrow> gen_state \<Rightarrow> gen_state" where
  "cell rnd x z st =
     (if distFromCenter x z < maxDist then column rnd x z (voxelHeight x z) st else st)"

definition VoxelIsland :: "(nat \<Rightarrow> real) \<Rightarrow> voxel list" where
  "VoxelIsland rnd =
     fst (fold (\<lambda>x. fold (\<lambda>z. cell rnd x z) [0..size_island - 1]) [0..size_island - 1] ([], 0))"

subsection \<open>Camera controller\<close>

text \<open>
  The operations of \<open>THREE.Vector3\<close> that \<open>PlayerController\<close> calls. In the library
  \<open>multiplyScalar\<close>, \<open>add\<close> and \<open>normalize\<close> change the vector they are called on and
  return it; here each returns the new value and the caller rebinds the variable.
  \<open>normalize\<close> divides by \<open>length() || 1\<close>.
\<close>

datatype Vector3 = Vector3 (vx: real) (vy: real) (vz: real)

definition multiplyScalar :: "Vector3 \<Rightarrow> real \<Rightarrow> Vector3" where
  "multiplyScalar v s = Vector3 (vx v * s) (vy v * s) (vz v * s)"

definition add :: "Vector3 \<Rightarrow> Vector3 \<Rightarrow> Vector3" where
  "add v w = Vector3 (vx v + vx w) (vy v + vy w) (vz v + vz w)"

definition crossVectors :: "Vector3 \<Rightarrow> Vector3 \<Rightarrow> Vector3" where
  "crossVectors a b =
     Vector3 (vy a * vz b - vz a * vy b) (vz a * vx b - vx a * vz b) (vx a * vy b - vy a * vx b)"

definition length_v :: "Vector3 \<Rightarrow> real" where
  "length_v v = sqrt (vx v * vx v + vy v * vy v + vz v * vz v)"

definition normalize :: "Vector3 \<Rightarrow> Vector3" where
  "normalize v = multiplyScalar v (1 / (if length_v v = 0 then 1 else length_v v))"

definition dot :: "Vector3 \<Rightarrow> Vector3 \<Rightarrow> real" where
  "dot v w = vx v * vx w + vy v * vy w + vz v * vz w"

text \<open>
  The camera: its position, its up vector and the unit vector that
  \<open>getWorldDirection\<close> reads from its orientation.
\<close>

record camera =
  cam_position :: Vector3
  cam_up :: Vector3
  cam_direction :: Vector3

text \<open>\<open>keysPressed.current\<close>: a key that was never set reads \<open>undefined\<close>, which is falsy.\<close>

type_synonym keys = "string \<rightharpoonup> bool"

definition pressed :: "keys \<Rightarrow> string \<Rightarrow> bool" where
  "pressed keysPressed k = (keysPressed k = Some True)"

text \<open>
  \<open>velocity.current\<close> after lines 143 to 167. \<open>forward\<close> and \<open>right\<close> are rebound
  by each \<open>multiplyScalar\<close>, which scales them in place.
\<close>

definition frame_velocity :: "keys \<Rightarrow> Vector3 \<Rightarrow> Vector3 \<Rightarrow> real \<Rightarrow> Vector3" where
  "frame_velocity keysPressed direction up delta =
     (let speed = 10;
          forward0 = direction;
          right0 = normalize (crossVectors forward0 up);
          velocity0 = Vector3 0 0 0;
          forward1 = (if pressed keysPressed ''keyw''
                      then multiplyScalar forward0 (speed * delta) else forward0);
          velocity1 = (if pressed keysPressed ''keyw'' then add velocity0 forward1 else velocity0);
          forward2 = (if pressed keysPressed ''keys''
                      then multiplyScalar forward1 (- speed * delta) else forward1);
          velocity2 = (if pressed keysPressed ''keys'' then add velocity1 forward2 else velocity1);
          right1 = (if pressed keysPressed ''keya''
                    then multiplyScalar right0 (- speed * delta) else right0);
          velocity3 = (if pressed keysPressed ''keya'' then add velocity2 right1 else velocity2);
          right2 = (if pressed keysPressed ''keyd''
                    then multiplyScalar right1 (speed * delta) else right1);
          velocity4 = (if pressed keysPressed ''keyd'' then add velocity3 right2 else velocity3)
      in (if pressed keysPressed ''space''
          then Vector3 (vx velocity4) (vy velocity4 + speed * delta) (vz velocity4)
          else velocity4))"

text \<open>The frame callback (lines 139 to 176).\<close>

definition useFrame :: "keys \<Rightarrow> real \<Rightarrow> camera \<Rightarrow> camera" where
  "useFrame keysPressed delta cam =
     (let velocity = frame_velocity keysPressed (cam_direction cam) (cam_up cam) delta;
          p = add (cam_position cam) velocity
      in cam\<lparr>cam_position := (if vy p < 2 then Vector3 (vx p) 2 (vz p) else p)\<rparr>)"

text \<open>\<open>n\<close> frames in a row with the same keys held and the same frame delta.\<close>

fun frames :: "nat \<Rightarrow> keys \<Rightarrow> real \<Rightarrow> camera \<Rightarrow> camera" where
  "frames 0 keysPressed delta cam = cam"
| "frames (Suc n) keysPressed delta cam = frames n keysPressed delta (useFrame keysPressed delta cam)"

subsection \<open>Voxels a column may emit\<close>

text \<open>
  A voxel that the \<open>y\<close> loop of the column \<open>(x, z)\<close> of height \<open>vh\<close> can push: a fill
  voxel of the column, or, above a column higher than 5, a trunk or leaf voxel of its
  tree. Used to state the invariant of the loops.
\<close>

definition column_voxel :: "int \<Rightarrow> int \<Rightarrow> int \<Rightarrow> voxel \<Rightarrow> bool" where
  "column_voxel x z vh v \<longleftrightarrow>
     (\<exists>y. 0 \<le> y \<and> y \<le> vh \<and>
          v = \<lparr>position = (x - centerX, y, z - centerZ), color = color_at vh y\<rparr>) \<or>
     (5 < vh \<and> (\<exists>dx dz dy. \<bar>dx\<bar> \<le> 1 \<and> \<bar>dz\<bar> \<le> 1 \<and> 1 \<le> dy \<and> dy \<le> 4 \<and>
          (color v = dirt \<or> color v = grass) \<and>
          position v = (x - centerX + dx, vh + dy, z - centerZ + dz)))"

subsection \<open>Bounds on the height field\<close>

text \<open>
  Auxiliary functions for bounding \<open>noise\<close>: by the product formula
  \<open>noise x z = wave (x + z) + wave (x - z)\<close>; \<open>sin_upper20\<close>, \<open>sin_upper12\<close> and
  \<open>sin_upper6\<close> are Taylor polynomials of the sine with their remainder bounds added.
\<close>

definition wave :: "real \<Rightarrow> real" where
  "wave w = sin (w * 0.1) + 2 * sin (w * 0.05) + 4 * sin (w * 0.02)"

definition sin_upper20 :: "real \<Rightarrow> real" where
  "sin_upper20 x =
     x - x ^ 3 / 6 + x ^ 5 / 120 - x ^ 7 / 5040 + x ^ 9 / 362880 - x ^ 11 / 39916800 +
     x ^ 13 / 6227020800 - x ^ 15 / 1307674368000 + x ^ 17 / 355687428096000 -
     x ^ 19 / 121645100408832000 + \<bar>x\<bar> ^ 20 / 2432902008176640000"

definition sin_upper12 :: "real \<Rightarrow> real" where
  "sin_upper12 x =
     x - x ^ 3 / 6 + x ^ 5 / 120 - x ^ 7 / 5040 + x ^ 9 / 362880 - x ^ 11 / 39916800 +
     \<bar>x\<bar> ^ 12 / 479001600"

definition sin_upper6 :: "real \<Rightarrow> real" where
  "sin_upper6 x = x - x ^ 3 / 6 + x ^ 5 / 120 + \<bar>x\<bar> ^ 6 / 720"

definition wave_bound :: "real \<Rightarrow> real" where
  "wave_bound w = sin_upper20 (w / 10) + 2 * sin_upper12 (w / 20) + 4 * sin_upper6 (w / 50)"

section \<open>Camera controller: the frame update\<close>

lemma frame_velocity_none:
  assumes "\<not> pressed ks ''keyw''" "\<not> pressed ks ''keys''" "\<not> pressed ks ''keya''"
    "\<not> pressed ks ''keyd''" "\<not> pressed ks ''space''"
  shows "frame_velocity ks f u dt = Vector3 0 0 0"
  using assms by (simp add: frame_velocity_def Let_def)

lemma frame_velocity_forward:
  assumes "pressed ks ''keyw''" "\<not> pressed ks ''keys''" "\<not> pressed ks ''keya''"
    "\<not> pressed ks ''keyd''" "\<not> pressed ks ''space''"
  shows "frame_velocity ks f u dt = multiplyScalar f (10 * dt)"
  using assms by (simp add: frame_velocity_def Let_def add_def multiplyScalar_def)

lemma useFrame_direction: "cam_direction (useFrame ks dt cam) = cam_direction cam"
  by (simp add: useFrame_def Let_def)

lemma useFrame_up: "cam_up (useFrame ks dt cam) = cam_up cam"
  by (simp add: useFrame_def Let_def)

lemma useFrame_forward_free:
  assumes "pressed ks ''keyw''" "\<not> pressed ks ''keys''" "\<not> pressed ks ''keya''"
    "\<not> pressed ks ''keyd''" "\<not> pressed ks ''space''"
    and "2 \<le> vy (cam_position cam) + 10 * dt * vy (cam_direction cam)"
  shows "cam_position (useFrame ks dt cam) =
         add (cam_position cam) (multiplyScalar (cam_direction cam) (10 * dt))"
  using assms(6) frame_velocity_forward [OF assms(1-5)]
  by (simp add: useFrame_def Let_def add_def multiplyScalar_def mult.commute)

lemma frames_forward_free:
  assumes "pressed ks ''keyw''" "\<not> pressed ks ''keys''" "\<not> pressed ks ''keya''"
    "\<not> pressed ks ''keyd''" "\<not> pressed ks ''space''"
  shows "2 \<le> vy (cam_position cam) \<Longrightarrow>
         2 \<le> vy (cam_position cam) + 10 * dt * real n * vy (cam_direction cam) \<Longrightarrow>
         cam_position (frames n ks dt cam) =
         add (cam_position cam) (multiplyScalar (cam_direction cam) (10 * dt * real n))"
proof (induction n arbitrary: cam)
  case 0
  then show ?case by (simp add: add_def multiplyScalar_def)
next
  case (Suc n)
  let ?c = "10 * dt * vy (cam_direction cam)"
  let ?y = "vy (cam_position cam)"
  have end_ok: "2 \<le> ?y + ?c * (1 + real n)"
    using Suc.prems(2) by (simp add: algebra_simps)
  have step_ok: "2 \<le> ?y + ?c"
  proof (cases "0 \<le> ?c")
    case True
    with Suc.prems(1) show ?thesis by linarith
  next
    case False
    then have "?c * (1 + real n) \<le> ?c * 1"
      by (intro mult_left_mono_neg) auto
    with end_ok show ?thesis by linarith
  qed
  have pos1: "cam_position (useFrame ks dt cam) =
      add (cam_position cam) (multiplyScalar (cam_direction cam) (10 * dt))"
    using useFrame_forward_free [OF assms] step_ok by simp
  have y1: "vy (cam_position (useFrame ks dt cam)) = ?y + ?c"
    by (simp add: pos1 add_def multiplyScalar_def)
  have "cam_position (frames n ks dt (useFrame ks dt cam)) =
      add (cam_position (useFrame ks dt cam))
        (multiplyScalar (cam_direction (useFrame ks dt cam)) (10 * dt * real n))"
  proof (rule Suc.IH)
    show "2 \<le> vy (cam_position (useFrame ks dt cam))"
      using step_ok by (simp add: y1)
    show "2 \<le> vy (cam_position (useFrame ks dt cam)) +
        10 * dt * real n * vy (cam_direction (useFrame ks dt cam))"
      using end_ok by (simp add: y1 useFrame_direction algebra_simps)
  qed
  then show ?case
    by (simp add: pos1 useFrame_direction add_def multiplyScalar_def algebra_simps)
qed

text \<open>
  Claim C2, as amended. When forward and back are not both pressed and left and right are
  not both pressed, the velocity added to the camera position in a frame is the sum, over
  the pressed keys, of \<open>speed * delta * f\<close> for forward, \<open>- speed * delta * f\<close> for back,
  \<open>- speed * delta * r\<close> for left and \<open>speed * delta * r\<close> for right, with \<open>speed * delta\<close>
  added to the vertical component for ascend, where \<open>speed = 10\<close> and \<open>r\<close> is the
  normalised cross product of \<open>f\<close> and the up vector. With only the forward key held for
  \<open>n\<close> frames of the same delta and a constant unit look direction \<open>f\<close>, the displacement
  along \<open>f\<close> is \<open>speed * delta * n\<close>, provided the camera starts at height 2 or more and the
  straight path ends at height 2 or more, so that the floor clamp never acts.
\<close>

theorem frame_velocity_sum:
  "(\<not> (pressed ks ''keyw'' \<and> pressed ks ''keys'') \<and> \<not> (pressed ks ''keya'' \<and> pressed ks ''keyd'') \<longrightarrow>
      frame_velocity ks f u dt =
        add (add (add (add
          (if pressed ks ''keyw'' then multiplyScalar f (10 * dt) else Vector3 0 0 0)
          (if pressed ks ''keys'' then multiplyScalar f (- (10 * dt)) else Vector3 0 0 0))
          (if pressed ks ''keya'' then multiplyScalar (normalize (crossVectors f u)) (- (10 * dt)) else Vector3 0 0 0))
          (if pressed ks ''keyd'' then multiplyScalar (normalize (crossVectors f u)) (10 * dt) else Vector3 0 0 0))
          (if pressed ks ''space'' then Vector3 0 (10 * dt) 0 else Vector3 0 0 0))
   \<and> (pressed ks ''keyw'' \<and> \<not> pressed ks ''keys'' \<and> \<not> pressed ks ''keya'' \<and>
      \<not> pressed ks ''keyd'' \<and> \<not> pressed ks ''space'' \<and>
      cam_direction cam = f \<and> dot f f = 1 \<and>
      2 \<le> vy (cam_position cam) \<and> 2 \<le> vy (cam_position cam) + 10 * dt * real n * vy f \<longrightarrow>
      dot (cam_position (frames n ks dt cam)) f - dot (cam_position cam) f = 10 * dt * real n)"
proof (intro conjI impI)
  assume "\<not> (pressed ks ''keyw'' \<and> pressed ks ''keys'') \<and> \<not> (pressed ks ''keya'' \<and> pressed ks ''keyd'')"
  then show "frame_velocity ks f u dt =
        add (add (add (add
          (if pressed ks ''keyw'' then multiplyScalar f (10 * dt) else Vector3 0 0 0)
          (if pressed ks ''keys'' then multiplyScalar f (- (10 * dt)) else Vector3 0 0 0))
          (if pressed ks ''keya'' then multiplyScalar (normalize (crossVectors f u)) (- (10 * dt)) else Vector3 0 0 0))
          (if pressed ks ''keyd'' then multiplyScalar (normalize (crossVectors f u)) (10 * dt) else Vector3 0 0 0))
          (if pressed ks ''space'' then Vector3 0 (10 * dt) 0 else Vector3 0 0 0)"
    by (auto simp add: frame_velocity_def Let_def add_def multiplyScalar_def)
next
  assume h: "pressed ks ''keyw'' \<and> \<not> pressed ks ''keys'' \<and> \<not> pressed ks ''keya'' \<and>
      \<not> pressed ks ''keyd'' \<and> \<not> pressed ks ''space'' \<and>
      cam_direction cam = f \<and> dot f f = 1 \<and>
      2 \<le> vy (cam_position cam) \<and> 2 \<le> vy (cam_position cam) + 10 * dt * real n * vy f"
  then have pos: "cam_position (frames n ks dt cam) =
      add (cam_position cam) (multiplyScalar f (10 * dt * real n))"
    using frames_forward_free [of ks cam dt n] by simp
  have "dot (cam_position (frames n ks dt cam)) f - dot (cam_position cam) f =
      (10 * dt * real n) * dot f f"
    by (simp add: pos dot_def add_def multiplyScalar_def algebra_simps)
  with h show "dot (cam_position (frames n ks dt cam)) f - dot (cam_position cam) f = 10 * dt * real n"
    by simp
qed

text \<open>
  The amended claim C2 at a concrete input: forward held, looking along \<open>- z\<close>, three frames
  of 1/50 s from the initial camera position \<open>(0, 15, 20)\<close>.
\<close>

theorem frame_velocity_sum_witness:
  "frame_velocity [''keyw'' \<mapsto> True] (Vector3 0 0 (- 1)) (Vector3 0 1 0) (1 / 50) = Vector3 0 0 (- (1 / 5))
   \<and> dot (cam_position (frames 3 [''keyw'' \<mapsto> True] (1 / 50)
        \<lparr>cam_position = Vector3 0 15 20, cam_up = Vector3 0 1 0, cam_direction = Vector3 0 0 (- 1)\<rparr>))
       (Vector3 0 0 (- 1))
     - dot (Vector3 0 15 20) (Vector3 0 0 (- 1)) = 10 * (1 / 50) * 3"
  using frame_velocity_sum [of "[''keyw'' \<mapsto> True]" "Vector3 0 0 (- 1)" "Vector3 0 1 0" "1 / 50"
      "\<lparr>cam_position = Vector3 0 15 20, cam_up = Vector3 0 1 0, cam_direction = Vector3 0 0 (- 1)\<rparr>" 3]
  by (simp add: pressed_def dot_def add_def multiplyScalar_def)

text \<open>
  Claim C2 as stated fails where the floor clamp acts: with only forward held, the camera
  at height 2 and a unit look direction pointing downwards, one frame of 1/10 s moves the
  camera by 0.64 along the look direction, not by \<open>speed * delta * n = 1\<close>.
\<close>

theorem forward_displacement_counterexample:
  "pressed [''keyw'' \<mapsto> True] ''keyw'' \<and>
   dot (Vector3 0 (- (3 / 5)) (- (4 / 5))) (Vector3 0 (- (3 / 5)) (- (4 / 5))) = 1 \<and>
   dot (cam_position (frames 1 [''keyw'' \<mapsto> True] (1 / 10)
        \<lparr>cam_position = Vector3 0 2 0, cam_up = Vector3 0 1 0,
         cam_direction = Vector3 0 (- (3 / 5)) (- (4 / 5))\<rparr>))
       (Vector3 0 (- (3 / 5)) (- (4 / 5)))
     - dot (Vector3 0 2 0) (Vector3 0 (- (3 / 5)) (- (4 / 5))) \<noteq> 10 * (1 / 10) * 1"
  by (simp add: pressed_def dot_def useFrame_def frame_velocity_def Let_def add_def multiplyScalar_def)

text \<open>
  With forward and back both held, \<open>forward\<close> has already been scaled by \<open>speed * delta\<close>
  when it is scaled again by \<open>- speed * delta\<close>: the two contributions do not cancel unless
  \<open>speed * delta = 1\<close>.
\<close>

lemma forward_and_back_velocity:
  "frame_velocity [''keyw'' \<mapsto> True, ''keys'' \<mapsto> True] (Vector3 0 0 (- 1)) (Vector3 0 1 0) (1 / 50)
     = Vector3 0 0 (- (4 / 25))"
  by (simp add: pressed_def frame_velocity_def Let_def add_def multiplyScalar_def)

text \<open>
  Claim C7. After a frame update the camera's vertical position is at least 2, whatever
  the keys, the frame delta and the camera before the frame; and when the position plus
  the frame's velocity is below 2, the vertical position after the frame is exactly 2.
\<close>

theorem floor_clamp:
  "2 \<le> vy (cam_position (useFrame ks dt cam)) \<and>
   (vy (cam_position cam) + vy (frame_velocity ks (cam_direction cam) (cam_up cam) dt) < 2 \<longrightarrow>
      vy (cam_position (useFrame ks dt cam)) = 2)"
  by (simp add: useFrame_def Let_def add_def)

text \<open>
  Claim C7 at a concrete input: looking straight down from height 2.5 with forward held,
  a frame of 1/10 s would reach height 1.5 and leaves the camera at height 2.
\<close>

theorem floor_clamp_witness:
  "vy (Vector3 0 (5 / 2) 0) +
     vy (frame_velocity [''keyw'' \<mapsto> True] (Vector3 0 (- 1) 0) (Vector3 0 1 0) (1 / 10)) < 2 \<and>
   vy (cam_position (useFrame [''keyw'' \<mapsto> True] (1 / 10)
      \<lparr>cam_position = Vector3 0 (5 / 2) 0, cam_up = Vector3 0 1 0, cam_direction = Vector3 0 (- 1) 0\<rparr>)) = 2"
  using floor_clamp [of "[''keyw'' \<mapsto> True]" "1 / 10"
      "\<lparr>cam_position = Vector3 0 (5 / 2) 0, cam_up = Vector3 0 1 0, cam_direction = Vector3 0 (- 1) 0\<rparr>"]
  by (simp add: pressed_def frame_velocity_def Let_def add_def multiplyScalar_def)

text \<open>
  Claim C10. When none of the five movement keys is pressed, a frame update keeps the
  camera's \<open>x\<close> and \<open>z\<close>, keeps \<open>y\<close> when \<open>y\<close> is at least 2, and sets \<open>y\<close> to exactly 2 when
  \<open>y\<close> is below 2.
\<close>

theorem idle_frame:
  assumes "\<not> pressed ks ''keyw''" "\<not> pressed ks ''keys''" "\<not> pressed ks ''keya''"
    "\<not> pressed ks ''keyd''" "\<not> pressed ks ''space''"
  shows "vx (cam_position (useFrame ks dt cam)) = vx (cam_position cam) \<and>
         vz (cam_position (useFrame ks dt cam)) = vz (cam_position cam) \<and>
         (2 \<le> vy (cam_position cam) \<longrightarrow>
            vy (cam_position (useFrame ks dt cam)) = vy (cam_position cam)) \<and>
         (vy (cam_position cam) < 2 \<longrightarrow> vy (cam_position (useFrame ks dt cam)) = 2)"
  using frame_velocity_none [OF assms]
  by (simp add: useFrame_def Let_def add_def)

text \<open>
  Claim C10 at two concrete cameras with no key ever pressed: one at height 15, left where
  it is, and one at height 1, lifted to height 2.
\<close>

theorem idle_frame_witness:
  "\<not> pressed Map.empty ''keyw'' \<and> \<not> pressed Map.empty ''keys'' \<and> \<not> pressed Map.empty ''keya'' \<and>
   \<not> pressed Map.empty ''keyd'' \<and> \<not> pressed Map.empty ''space'' \<and>
   cam_position (useFrame Map.empty (1 / 60)
      \<lparr>cam_position = Vector3 0 15 20, cam_up = Vector3 0 1 0, cam_direction = Vector3 0 0 (- 1)\<rparr>)
     = Vector3 0 15 20 \<and>
   cam_position (useFrame Map.empty (1 / 60)
      \<lparr>cam_position = Vector3 3 1 4, cam_up = Vector3 0 1 0, cam_direction = Vector3 0 0 (- 1)\<rparr>)
     = Vector3 3 2 4"
  using idle_frame [of Map.empty "1 / 60"
      "\<lparr>cam_position = Vector3 0 15 20, cam_up = Vector3 0 1 0, cam_direction = Vector3 0 0 (- 1)\<rparr>"]
    idle_frame [of Map.empty "1 / 60"
      "\<lparr>cam_position = Vector3 3 1 4, cam_up = Vector3 0 1 0, cam_direction = Vector3 0 0 (- 1)\<rparr>"]
  by (simp add: pressed_def Vector3.expand)

section \<open>Terrain generator: the loops\<close>

lemma leaf_eq:
  "leaf rnd x y z dx dz dy (vd, k) =
     (vd @ (if rnd k < 0.7
            then [\<lparr>position = (x - centerX + dx, y + 3 + dy, z - centerZ + dz), color = grass\<rparr>]
            else []), Suc k)"
  by (simp add: leaf_def)

lemma fold_product:
  "fold (\<lambda>a. fold (f a) ys) xs = fold (\<lambda>(a, b). f a b) (List.product xs ys)"
  by (induction xs) (simp_all add: fold_map comp_def)

lemma fold_counted:
  assumes step: "\<And>c vd k. f c (vd, k) = (vd @ g k c, Suc k)"
  shows "fold f cs (vd, k) =
     (vd @ concat (map (\<lambda>i. g (k + i) (cs ! i)) [0..<length cs]), k + length cs)"
proof (induction cs rule: rev_induct)
  case Nil
  then show ?case by simp
next
  case (snoc c cs)
  have pre: "map (\<lambda>i. g (k + i) ((cs @ [c]) ! i)) [0..<length cs] =
      map (\<lambda>i. g (k + i) (cs ! i)) [0..<length cs]"
    by (rule map_cong) (simp_all add: nth_append)
  show ?case
    by (simp add: snoc.IH step pre del: map_eq_conv)
qed

lemma fold_leaf_list:
  "fold (\<lambda>(dx, dz, dy). leaf rnd x y z dx dz dy) cs (vd, k) =
     (vd @ concat (map (\<lambda>i. if rnd (k + i) < 0.7
                            then [(\<lambda>(dx, dz, dy). \<lparr>position = (x - centerX + dx, y + 3 + dy, z - centerZ + dz),
                                                  color = grass\<rparr>) (cs ! i)]
                            else []) [0..<length cs]),
      k + length cs)"
  by (rule fold_counted) (simp add: leaf_eq split: prod.splits)

lemma tree_eq:
  "tree rnd x y z (vd, k) =
     (vd @ [\<lparr>position = (x - centerX, y + 1, z - centerZ), color = dirt\<rparr>,
            \<lparr>position = (x - centerX, y + 2, z - centerZ), color = dirt\<rparr>]
         @ concat (map (\<lambda>i. if rnd (k + i) < 0.7
                            then [(\<lambda>(dx, dz, dy). \<lparr>position = (x - centerX + dx, y + 3 + dy, z - centerZ + dz),
                                                  color = grass\<rparr>)
                                   (List.product [-1..1] (List.product [-1..1] [0..1]) ! i)]
                            else []) [0..<18]),
      k + 18)"
proof -
  have len: "length (List.product [-1..1::int] (List.product [-1..1::int] [0..1::int])) = 18"
    by simp
  have "tree rnd x y z (vd, k) =
      fold (\<lambda>(dx, dz, dy). leaf rnd x y z dx dz dy)
        (List.product [-1..1] (List.product [-1..1] [0..1]))
        (vd @ [\<lparr>position = (x - centerX, y + 1, z - centerZ), color = dirt\<rparr>,
               \<lparr>position = (x - centerX, y + 2, z - centerZ), color = dirt\<rparr>], k)"
    unfolding tree_def fold_product
    by (simp add: case_prod_unfold fold_product)
  then show ?thesis
    unfolding fold_leaf_list len by simp
qed

lemma level_below:
  "y \<noteq> vh \<Longrightarrow> level rnd x z vh y (vd, k) =
     (vd @ [\<lparr>position = (x - centerX, y, z - centerZ), color = color_at vh y\<rparr>], k)"
  by (simp add: level_def)

lemma fold_level_below:
  "\<forall>y \<in> set ys. y \<noteq> vh \<Longrightarrow> fold (level rnd x z vh) ys (vd, k) =
     (vd @ map (\<lambda>y. \<lparr>position = (x - centerX, y, z - centerZ), color = color_at vh y\<rparr>) ys, k)"
  by (induction ys arbitrary: vd) (simp_all add: level_below)

lemma level_top:
  "level rnd x z vh vh (vd, k) =
     (if 5 < vh then
        (if rnd k < 0.02
         then (fst (tree rnd x vh z (vd, Suc k)) @
                 [\<lparr>position = (x - centerX, vh, z - centerZ), color = color_at vh vh\<rparr>],
               snd (tree rnd x vh z (vd, Suc k)))
         else (vd @ [\<lparr>position = (x - centerX, vh, z - centerZ), color = color_at vh vh\<rparr>], Suc k))
      else (vd @ [\<lparr>position = (x - centerX, vh, z - centerZ), color = color_at vh vh\<rparr>], k))"
  by (simp add: level_def Let_def)

lemma column_split:
  assumes "0 \<le> vh"
  shows "column rnd x z vh (vd, k) =
     level rnd x z vh vh
       (vd @ map (\<lambda>y. \<lparr>position = (x - centerX, y, z - centerZ), color = color_at vh y\<rparr>) [0..vh - 1], k)"
proof -
  have "[0..vh] = [0..vh - 1] @ [vh]"
    using assms by (rule upto_rec2)
  then show ?thesis
    by (simp add: column_def fold_level_below)
qed

lemma tree_append:
  "tree rnd x y z (vd, k) = (vd @ fst (tree rnd x y z ([], k)), k + 18)"
  by (simp add: tree_eq)

lemma noise_le: "noise x z \<le> 14"
proof -
  have b: "sin a * cos b \<le> 1" for a b :: real
  proof -
    have "\<bar>sin a * cos b\<bar> \<le> 1 * 1"
      unfolding abs_mult by (intro mult_mono) auto
    then show ?thesis by linarith
  qed
  show ?thesis
    unfolding noise_def
    using b [of "x * 0.1" "z * 0.1"] b [of "x * 0.05" "z * 0.05"] b [of "x * 0.02" "z * 0.02"]
    by linarith
qed

lemma height_nonneg: "0 \<le> height x z"
  by (simp add: height_def)

lemma voxelHeight_ge1: "1 \<le> voxelHeight x z"
proof -
  have "0 \<le> \<lfloor>height x z\<rfloor>"
    using height_nonneg by simp
  then show ?thesis by (simp add: voxelHeight_def)
qed

lemma maxDist_20: "maxDist = 20"
  by (simp add: maxDist_def size_island_def)

lemma center_25: "centerX = 25" "centerZ = 25"
  by (simp_all add: centerX_def centerZ_def size_island_def)

lemma sqrt_lt_20: "0 \<le> r \<Longrightarrow> sqrt r < 20 \<longleftrightarrow> r < 400"
proof -
  assume "0 \<le> r"
  have "sqrt r < sqrt 400 \<longleftrightarrow> r < 400"
    by (rule real_sqrt_less_iff)
  moreover have "sqrt 400 = (20::real)"
    using real_sqrt_abs [of 20] by simp
  ultimately show ?thesis by simp
qed

lemma included_iff:
  "distFromCenter x z < maxDist \<longleftrightarrow> (x - 25)\<^sup>2 + (z - 25)\<^sup>2 < 400"
proof -
  have "distFromCenter x z < maxDist \<longleftrightarrow> real_of_int ((x - 25)\<^sup>2 + (z - 25)\<^sup>2) < 400"
    unfolding distFromCenter_def maxDist_20 center_25
    by (rule sqrt_lt_20) simp
  also have "\<dots> \<longleftrightarrow> (x - 25)\<^sup>2 + (z - 25)\<^sup>2 < 400"
    by linarith
  finally show ?thesis .
qed

lemma abs_le_dist:
  "\<bar>real_of_int (x - centerX)\<bar> \<le> distFromCenter x z \<and>
   \<bar>real_of_int (z - centerZ)\<bar> \<le> distFromCenter x z"
proof (rule conjI)
  have "\<bar>real_of_int (x - centerX)\<bar> = sqrt ((real_of_int (x - centerX))\<^sup>2)"
    by simp
  also have "\<dots> \<le> distFromCenter x z"
    unfolding distFromCenter_def by (rule real_sqrt_le_mono) simp
  finally show "\<bar>real_of_int (x - centerX)\<bar> \<le> distFromCenter x z" .
  have "\<bar>real_of_int (z - centerZ)\<bar> = sqrt ((real_of_int (z - centerZ))\<^sup>2)"
    by simp
  also have "\<dots> \<le> distFromCenter x z"
    unfolding distFromCenter_def by (rule real_sqrt_le_mono) simp
  finally show "\<bar>real_of_int (z - centerZ)\<bar> \<le> distFromCenter x z" .
qed

lemma tall_dist:
  assumes inc: "distFromCenter x z < maxDist" and tall: "5 < voxelHeight x z"
  shows "distFromCenter x z < 13"
proof -
  let ?d = "distFromCenter x z"
  let ?n = "noise (real_of_int x) (real_of_int z)"
  have "5 \<le> \<lfloor>height x z\<rfloor>"
    using tall by (simp add: voxelHeight_def)
  then have h5: "5 \<le> height x z"
    by (simp add: le_floor_iff)
  then have prod5: "5 \<le> ?n * (1 - ?d / maxDist)"
    by (simp add: height_def max_def split: if_splits)
  have fall: "0 < 1 - ?d / maxDist"
    using inc by (simp add: maxDist_20)
  have "?n * (1 - ?d / maxDist) \<le> 14 * (1 - ?d / maxDist)"
    using noise_le fall by (intro mult_right_mono) auto
  with prod5 have "5 \<le> 14 * (1 - ?d / 20)"
    by (simp add: maxDist_20)
  then show ?thesis by simp
qed

lemma tall_inner:
  assumes "distFromCenter x z < maxDist" and "5 < voxelHeight x z"
  shows "\<bar>x - 25\<bar> \<le> 12 \<and> \<bar>z - 25\<bar> \<le> 12"
proof -
  have d: "distFromCenter x z < 13"
    using assms by (rule tall_dist)
  have "\<bar>real_of_int (x - 25)\<bar> < 13" "\<bar>real_of_int (z - 25)\<bar> < 13"
    using abs_le_dist [of x z] d by (simp_all add: center_25)
  then show ?thesis by linarith
qed

lemma near_tall_included:
  assumes "\<bar>a\<bar> \<le> (12::int)" "\<bar>c\<bar> \<le> (12::int)" "\<bar>dx\<bar> \<le> (1::int)" "\<bar>dz\<bar> \<le> (1::int)"
  shows "(a + dx)\<^sup>2 + (c + dz)\<^sup>2 < 400"
proof -
  have "\<bar>a + dx\<bar> \<le> 13" "\<bar>c + dz\<bar> \<le> 13"
    using assms by linarith+
  then have "(a + dx)\<^sup>2 \<le> 13\<^sup>2" "(c + dz)\<^sup>2 \<le> 13\<^sup>2"
    using abs_le_square_iff [of "a + dx" 13] abs_le_square_iff [of "c + dz" 13] by simp_all
  then show ?thesis by simp
qed

lemma candidates_range:
  assumes "i < 18"
  shows "List.product [-1..1] (List.product [-1..1] [0..1::int]) ! i
           \<in> {-1..1::int} \<times> {-1..1::int} \<times> {0..1}"
proof -
  have "List.product [-1..1] (List.product [-1..1] [0..1::int]) ! i
      \<in> set (List.product [-1..1::int] (List.product [-1..1::int] [0..1::int]))"
    by (rule nth_mem) (simp add: assms)
  then show ?thesis by simp
qed

lemma column_voxel_treeI:
  assumes "5 < vh" "\<bar>dx\<bar> \<le> 1" "\<bar>dz\<bar> \<le> 1" "1 \<le> dy" "dy \<le> 4"
    and "color v = dirt \<or> color v = grass"
    and "position v = (x - centerX + dx, vh + dy, z - centerZ + dz)"
  shows "column_voxel x z vh v"
  unfolding column_voxel_def using assms by blast

lemma tree_voxels:
  assumes "v \<in> set (fst (tree rnd x vh z ([], k)))" and "5 < vh"
  shows "column_voxel x z vh v"
proof -
  from assms(1) consider
      "v = \<lparr>position = (x - centerX, vh + 1, z - centerZ), color = dirt\<rparr>"
    | "v = \<lparr>position = (x - centerX, vh + 2, z - centerZ), color = dirt\<rparr>"
    | i where "i < 18" "v = (\<lambda>(dx, dz, dy). \<lparr>position = (x - centerX + dx, vh + 3 + dy, z - centerZ + dz),
                                                color = grass\<rparr>)
                 (List.product [-1..1] (List.product [-1..1] [0..1]) ! i)"
    by (auto simp add: tree_eq split: if_splits)
  then show ?thesis
  proof cases
    case 1
    show ?thesis
      by (rule column_voxel_treeI [of vh 0 0 1]) (simp_all add: 1 assms(2))
  next
    case 2
    show ?thesis
      by (rule column_voxel_treeI [of vh 0 0 2]) (simp_all add: 2 assms(2))
  next
    case 3
    obtain dx dz dy where c: "List.product [-1..1] (List.product [-1..1] [0..1::int]) ! i = (dx, dz, dy)"
      by (metis prod_cases3)
    with candidates_range [OF 3(1)] have r: "\<bar>dx\<bar> \<le> 1" "\<bar>dz\<bar> \<le> 1" "0 \<le> dy" "dy \<le> 1"
      by auto
    show ?thesis
      using r by (intro column_voxel_treeI [of vh dx dz "3 + dy"]) (simp_all add: 3(2) c assms(2))
  qed
qed

lemma column_emits:
  assumes "0 \<le> vh"
  shows "\<exists>out k'. column rnd x z vh (vd, k) = (vd @ out, k') \<and> (\<forall>v \<in> set out. column_voxel x z vh v)"
proof -
  let ?fill = "\<lambda>y. \<lparr>position = (x - centerX, y, z - centerZ), color = color_at vh y\<rparr>"
  have fills: "column_voxel x z vh (?fill y)" if "0 \<le> y" "y \<le> vh" for y
    unfolding column_voxel_def using that by blast
  have below: "\<forall>v \<in> set (map ?fill [0..vh - 1]). column_voxel x z vh v"
    using fills by auto
  have top: "column_voxel x z vh (?fill vh)"
    using fills assms by simp
  show ?thesis
  proof (cases "5 < vh \<and> rnd k < 0.02")
    case True
    have "column rnd x z vh (vd, k) =
        (vd @ (map ?fill [0..vh - 1] @ fst (tree rnd x vh z ([], Suc k)) @ [?fill vh]), Suc k + 18)"
      using True by (simp add: column_split [OF assms] level_top tree_append [of rnd x vh z "vd @ _"])
    moreover have "\<forall>v \<in> set (map ?fill [0..vh - 1] @ fst (tree rnd x vh z ([], Suc k)) @ [?fill vh]).
        column_voxel x z vh v"
      using below top tree_voxels True by auto
    ultimately show ?thesis by blast
  next
    case False
    have "column rnd x z vh (vd, k) =
        (vd @ (map ?fill [0..vh - 1] @ [?fill vh]), if 5 < vh then Suc k else k)"
      using False by (simp add: column_split [OF assms] level_top)
    moreover have "\<forall>v \<in> set (map ?fill [0..vh - 1] @ [?fill vh]). column_voxel x z vh v"
      using below top by auto
    ultimately show ?thesis by blast
  qed
qed

lemma column_fill_mem:
  assumes "0 \<le> y" "y \<le> vh"
  shows "\<lparr>position = (x - centerX, y, z - centerZ), color = color_at vh y\<rparr>
           \<in> set (fst (column rnd x z vh (vd, k)))"
proof -
  let ?fill = "\<lambda>y. \<lparr>position = (x - centerX, y, z - centerZ), color = color_at vh y\<rparr>"
  have vh: "0 \<le> vh" using assms by simp
  have "y \<in> set [0..vh - 1] \<or> y = vh"
    using assms by auto
  then have "?fill y \<in> set (map ?fill [0..vh - 1] @ [?fill vh])"
    by auto
  then show ?thesis
    by (auto simp add: column_split [OF vh] level_top tree_append [of rnd x vh z "vd @ _"])
qed

lemma cell_emits:
  "\<exists>out k'. cell rnd x z (vd, k) = (vd @ out, k') \<and>
     (\<forall>v \<in> set out. distFromCenter x z < maxDist \<and> column_voxel x z (voxelHeight x z) v)"
proof (cases "distFromCenter x z < maxDist")
  case True
  have "0 \<le> voxelHeight x z"
    using voxelHeight_ge1 [of x z] by simp
  from column_emits [OF this, of rnd x z vd k] True show ?thesis
    by (simp add: cell_def)
next
  case False
  then have "cell rnd x z (vd, k) = (vd @ [], k)"
    by (simp add: cell_def)
  then show ?thesis by (metis empty_iff list.set(1))
qed

lemma fold_emits:
  assumes "\<And>a vd k. a \<in> set xs \<Longrightarrow> \<exists>out k'. f a (vd, k) = (vd @ out, k') \<and> (\<forall>v \<in> set out. P v)"
  shows "\<exists>out k'. fold f xs (vd, k) = (vd @ out, k') \<and> (\<forall>v \<in> set out. P v)"
  using assms
proof (induction xs arbitrary: vd k)
  case Nil
  have "fold f [] (vd, k) = (vd @ [], k)" by simp
  then show ?case by (metis empty_iff list.set(1))
next
  case (Cons a xs)
  obtain o1 k1 where s1: "f a (vd, k) = (vd @ o1, k1)" and p1: "\<forall>v \<in> set o1. P v"
    using Cons.prems [of a vd k] by auto
  have "\<exists>out k'. fold f xs (vd @ o1, k1) = ((vd @ o1) @ out, k') \<and> (\<forall>v \<in> set out. P v)"
  proof (rule Cons.IH)
    fix b vd' k'
    assume "b \<in> set xs"
    then show "\<exists>out k''. f b (vd', k') = (vd' @ out, k'') \<and> (\<forall>v \<in> set out. P v)"
      using Cons.prems [of b vd' k'] by simp
  qed
  then obtain o2 k2 where s2: "fold f xs (vd @ o1, k1) = ((vd @ o1) @ o2, k2)"
    and p2: "\<forall>v \<in> set o2. P v"
    by auto
  have "fold f (a # xs) (vd, k) = (vd @ (o1 @ o2), k2)"
    by (simp add: s1 s2)
  moreover have "\<forall>v \<in> set (o1 @ o2). P v"
    using p1 p2 by auto
  ultimately show ?case by blast
qed

lemma fold_emits_mem:
  assumes ext: "\<And>b vd k. \<exists>out k'. f b (vd, k) = (vd @ out, k')"
    and "a \<in> set xs"
    and here: "\<And>vd k. v \<in> set (fst (f a (vd, k)))"
  shows "v \<in> set (fst (fold f xs (vd, k)))"
  using assms(2)
proof (induction xs arbitrary: vd k)
  case Nil
  then show ?case by simp
next
  case (Cons b xs)
  obtain o1 k1 where s1: "f b (vd, k) = (vd @ o1, k1)"
    using ext [of b vd k] by auto
  show ?case
  proof (cases "a = b")
    case True
    have "\<exists>out k'. fold f xs (vd @ o1, k1) = ((vd @ o1) @ out, k') \<and> (\<forall>v \<in> set out. True)"
      using ext by (intro fold_emits) auto
    then obtain o2 k2 where s2: "fold f xs (vd @ o1, k1) = ((vd @ o1) @ o2, k2)"
      by auto
    have "v \<in> set (vd @ o1)"
      using here [of vd k] True s1 by simp
    then show ?thesis
      by (auto simp add: s1 s2)
  next
    case False
    with Cons.prems have "a \<in> set xs" by simp
    then have "v \<in> set (fst (fold f xs (vd @ o1, k1)))"
      by (rule Cons.IH)
    then show ?thesis by (simp add: s1)
  qed
qed

lemma cell_extends: "\<exists>out k'. cell rnd x z (vd, k) = (vd @ out, k')"
  using cell_emits [of rnd x z vd k] by blast

lemma row_emits:
  "\<exists>out k'. fold (\<lambda>z. cell rnd x z) zs (vd, k) = (vd @ out, k') \<and>
     (\<forall>v \<in> set out. \<exists>z \<in> set zs. distFromCenter x z < maxDist \<and> column_voxel x z (voxelHeight x z) v)"
proof (rule fold_emits)
  fix z vd k
  assume "z \<in> set zs"
  then show "\<exists>out k'. cell rnd x z (vd, k) = (vd @ out, k') \<and>
     (\<forall>v \<in> set out. \<exists>z \<in> set zs. distFromCenter x z < maxDist \<and> column_voxel x z (voxelHeight x z) v)"
    using cell_emits [of rnd x z vd k] by blast
qed

lemma grid_emits:
  "\<exists>out k'. fold (\<lambda>x. fold (\<lambda>z. cell rnd x z) zs) xs (vd, k) = (vd @ out, k') \<and>
     (\<forall>v \<in> set out. \<exists>x \<in> set xs. \<exists>z \<in> set zs.
        distFromCenter x z < maxDist \<and> column_voxel x z (voxelHeight x z) v)"
proof (rule fold_emits)
  fix x vd k
  assume "x \<in> set xs"
  then show "\<exists>out k'. fold (\<lambda>z. cell rnd x z) zs (vd, k) = (vd @ out, k') \<and>
     (\<forall>v \<in> set out. \<exists>x \<in> set xs. \<exists>z \<in> set zs.
        distFromCenter x z < maxDist \<and> column_voxel x z (voxelHeight x z) v)"
    using row_emits [of rnd x zs vd k] by blast
qed

lemma island_voxels:
  assumes "v \<in> set (VoxelIsland rnd)"
  shows "\<exists>x z. 0 \<le> x \<and> x < size_island \<and> 0 \<le> z \<and> z < size_island \<and>
           distFromCenter x z < maxDist \<and> column_voxel x z (voxelHeight x z) v"
proof -
  obtain out k' where
    "fold (\<lambda>x. fold (\<lambda>z. cell rnd x z) [0..size_island - 1]) [0..size_island - 1] ([], 0) = ([] @ out, k')"
    and all: "\<forall>v \<in> set out. \<exists>x \<in> set [0..size_island - 1]. \<exists>z \<in> set [0..size_island - 1].
        distFromCenter x z < maxDist \<and> column_voxel x z (voxelHeight x z) v"
    using grid_emits [of rnd "[0..size_island - 1]" "[0..size_island - 1]" "[]" 0] by blast
  then have "VoxelIsland rnd = out"
    by (simp add: VoxelIsland_def)
  with assms all obtain x z where "x \<in> set [0..size_island - 1]" "z \<in> set [0..size_island - 1]"
    "distFromCenter x z < maxDist" "column_voxel x z (voxelHeight x z) v"
    by blast
  then show ?thesis
    by (intro exI [of _ x] exI [of _ z]) simp
qed

lemma cell_fill_mem:
  assumes "distFromCenter x z < maxDist" "0 \<le> y" "y \<le> voxelHeight x z"
  shows "\<lparr>position = (x - centerX, y, z - centerZ), color = color_at (voxelHeight x z) y\<rparr>
           \<in> set (fst (cell rnd x z (vd, k)))"
  using column_fill_mem [OF assms(2,3), of x z rnd vd k] assms(1) by (simp add: cell_def)

lemma island_fill_mem:
  assumes "0 \<le> x" "x < size_island" "0 \<le> z" "z < size_island"
    and "distFromCenter x z < maxDist" "0 \<le> y" "y \<le> voxelHeight x z"
  shows "\<lparr>position = (x - centerX, y, z - centerZ), color = color_at (voxelHeight x z) y\<rparr>
           \<in> set (VoxelIsland rnd)"
  unfolding VoxelIsland_def
proof (rule fold_emits_mem [where a = x])
  show "x \<in> set [0..size_island - 1]"
    using assms by simp
  show "\<exists>out k'. fold (\<lambda>z. cell rnd b z) [0..size_island - 1] (vd, k) = (vd @ out, k')" for b vd k
    using row_emits [of rnd b "[0..size_island - 1]" vd k] by blast
  show "\<lparr>position = (x - centerX, y, z - centerZ), color = color_at (voxelHeight x z) y\<rparr>
      \<in> set (fst (fold (\<lambda>z. cell rnd x z) [0..size_island - 1] (vd, k)))" for vd k
  proof (rule fold_emits_mem [where a = z])
    show "z \<in> set [0..size_island - 1]"
      using assms by simp
    show "\<exists>out k'. cell rnd x b (vd, k) = (vd @ out, k')" for b vd k
      by (rule cell_extends)
    show "\<lparr>position = (x - centerX, y, z - centerZ), color = color_at (voxelHeight x z) y\<rparr>
        \<in> set (fst (cell rnd x z (vd, k)))" for vd k
      using assms(5-7) by (rule cell_fill_mem)
  qed
qed

lemma column_voxelE:
  assumes "column_voxel x z vh v"
  obtains (fill) y where "0 \<le> y" "y \<le> vh"
      "v = \<lparr>position = (x - centerX, y, z - centerZ), color = color_at vh y\<rparr>"
    | (tree) dx dz dy where "5 < vh" "\<bar>dx\<bar> \<le> 1" "\<bar>dz\<bar> \<le> 1" "1 \<le> dy" "dy \<le> 4"
      "color v = dirt \<or> color v = grass"
      "position v = (x - centerX + dx, vh + dy, z - centerZ + dz)"
  using assms unfolding column_voxel_def by blast

lemma column_voxel_included:
  assumes inc: "distFromCenter x z < maxDist" and cv: "column_voxel x z (voxelHeight x z) v"
  shows "(fst (position v))\<^sup>2 + (snd (snd (position v)))\<^sup>2 < 400"
  using cv
proof (cases rule: column_voxelE)
  case (fill y)
  then show ?thesis
    using inc by (simp add: included_iff center_25)
next
  case (tree dx dz dy)
  have "\<bar>x - 25\<bar> \<le> 12 \<and> \<bar>z - 25\<bar> \<le> 12"
    using inc tree(1) by (rule tall_inner)
  then have "(x - 25 + dx)\<^sup>2 + (z - 25 + dz)\<^sup>2 < 400"
    using tree(2,3) by (intro near_tall_included) auto
  then show ?thesis
    by (simp add: tree(7) center_25)
qed

lemma column_voxel_bedrock:
  assumes cv: "column_voxel x z (voxelHeight x z) v" and y0: "fst (snd (position v)) = 0"
  shows "color v = bedrock"
  using cv
proof (cases rule: column_voxelE)
  case (fill y)
  with y0 have "y = 0" by simp
  then show ?thesis
    using voxelHeight_ge1 [of x z] by (simp add: fill(3) color_at_def)
next
  case (tree dx dz dy)
  with y0 show ?thesis by simp
qed

lemma column_voxel_near:
  assumes cv: "column_voxel x z vh v"
  shows "\<bar>fst (position v) - (x - centerX)\<bar> \<le> 1 \<and> \<bar>snd (snd (position v)) - (z - centerZ)\<bar> \<le> 1 \<and>
         fst (snd (position v)) \<le> vh + 4"
  using cv by (cases rule: column_voxelE) simp_all

lemma column_eq:
  assumes "0 \<le> vh"
  shows "column rnd x z vh (vd, k) =
     (if 5 < vh \<and> rnd k < 0.02
      then (vd @ map (\<lambda>y. \<lparr>position = (x - centerX, y, z - centerZ), color = color_at vh y\<rparr>) [0..vh - 1]
               @ fst (tree rnd x vh z ([], Suc k))
               @ [\<lparr>position = (x - centerX, vh, z - centerZ), color = color_at vh vh\<rparr>], k + 19)
      else (vd @ map (\<lambda>y. \<lparr>position = (x - centerX, y, z - centerZ), color = color_at vh y\<rparr>) [0..vh],
            if 5 < vh then Suc k else k))"
proof -
  have "[0..vh] = [0..vh - 1] @ [vh]"
    using assms by (rule upto_rec2)
  then show ?thesis
    by (simp add: column_split [OF assms] level_top tree_append [of rnd x vh z "vd @ _"])
qed

lemma origin_bedrock: "\<lparr>position = (0, 0, 0), color = bedrock\<rparr> \<in> set (VoxelIsland rnd)"
proof -
  have inc: "distFromCenter 25 25 < maxDist"
    by (simp add: included_iff)
  have "\<lparr>position = (25 - centerX, 0, 25 - centerZ), color = color_at (voxelHeight 25 25) 0\<rparr>
      \<in> set (VoxelIsland rnd)"
    using voxelHeight_ge1 [of 25 25]
    by (intro island_fill_mem inc) (simp_all add: size_island_def)
  then show ?thesis
    using voxelHeight_ge1 [of 25 25] by (simp add: center_25 color_at_def)
qed

subsection \<open>No column of the grid is higher than 5\<close>

text \<open>
  The height field is bounded at every grid point that matters: \<open>wave\<close> is at most 4.5
  at the integers from 32 to 68 (Taylor polynomials, evaluated point by point), and at
  most \<open>0.28 * t\<close> for small \<open>t \<ge> 0\<close>. With the falloff this keeps \<open>height\<close> below 5 on
  every included cell, so the condition \<open>y > 5\<close> of the tree branch never holds and the
  generated sequence consists of the fill voxels alone, whatever the draws.
\<close>

text \<open>The product formula for sine and cosine splits \<open>noise\<close> into two waves.\<close>

lemma noise_wave: "noise x z = wave (x + z) + wave (x - z)"
  by (simp add: noise_def wave_def sin_times_cos add_divide_distrib diff_divide_distrib)

lemma sin_taylor_upper: "sin x \<le> (\<Sum>m<n. sin_coeff m * x ^ m) + inverse (fact n) * \<bar>x\<bar> ^ n"
  using Maclaurin_sin_bound [of x n] by linarith

lemma sin_le_upper20: "sin x \<le> sin_upper20 x"
proof -
  have "(\<Sum>m<20. sin_coeff m * x ^ m) =
      x - x ^ 3 / 6 + x ^ 5 / 120 - x ^ 7 / 5040 + x ^ 9 / 362880 - x ^ 11 / 39916800 +
      x ^ 13 / 6227020800 - x ^ 15 / 1307674368000 + x ^ 17 / 355687428096000 -
      x ^ 19 / 121645100408832000"
    by (simp add: lessThan_nat_numeral sin_coeff_def fact_numeral)
  then show ?thesis
    using sin_taylor_upper [of x 20] by (simp add: sin_upper20_def fact_numeral inverse_eq_divide)
qed

lemma sin_le_upper12: "sin x \<le> sin_upper12 x"
proof -
  have "(\<Sum>m<12. sin_coeff m * x ^ m) =
      x - x ^ 3 / 6 + x ^ 5 / 120 - x ^ 7 / 5040 + x ^ 9 / 362880 - x ^ 11 / 39916800"
    by (simp add: lessThan_nat_numeral sin_coeff_def fact_numeral)
  then show ?thesis
    using sin_taylor_upper [of x 12] by (simp add: sin_upper12_def fact_numeral inverse_eq_divide)
qed

lemma sin_le_upper6: "sin x \<le> sin_upper6 x"
proof -
  have "(\<Sum>m<6. sin_coeff m * x ^ m) = x - x ^ 3 / 6 + x ^ 5 / 120"
    by (simp add: lessThan_nat_numeral sin_coeff_def fact_numeral)
  then show ?thesis
    using sin_taylor_upper [of x 6] by (simp add: sin_upper6_def fact_numeral inverse_eq_divide)
qed

lemma wave_le_bound: "wave w \<le> wave_bound w"
  using sin_le_upper20 [of "w / 10"] sin_le_upper12 [of "w / 20"] sin_le_upper6 [of "w / 50"]
  by (simp add: wave_def wave_bound_def)

lemma wave_bound_32_39:
  "list_all (\<lambda>w. wave_bound (real_of_int w) \<le> 9 / 2) [32..39]"
  by (simp add: upto.simps wave_bound_def sin_upper20_def sin_upper12_def sin_upper6_def power_divide)

lemma wave_bound_40_47:
  "list_all (\<lambda>w. wave_bound (real_of_int w) \<le> 9 / 2) [40..47]"
  by (simp add: upto.simps wave_bound_def sin_upper20_def sin_upper12_def sin_upper6_def power_divide)

lemma wave_bound_48_54:
  "list_all (\<lambda>w. wave_bound (real_of_int w) \<le> 9 / 2) [48..54]"
  by (simp add: upto.simps wave_bound_def sin_upper20_def sin_upper12_def sin_upper6_def power_divide)

lemma wave_bound_55_61:
  "list_all (\<lambda>w. wave_bound (real_of_int w) \<le> 9 / 2) [55..61]"
  by (simp add: upto.simps wave_bound_def sin_upper20_def sin_upper12_def sin_upper6_def power_divide)

lemma wave_bound_62_68:
  "list_all (\<lambda>w. wave_bound (real_of_int w) \<le> 9 / 2) [62..68]"
  by (simp add: upto.simps wave_bound_def sin_upper20_def sin_upper12_def sin_upper6_def power_divide)

lemma wave_int_le:
  assumes "32 \<le> s" "s \<le> 68"
  shows "wave (real_of_int s) \<le> 9 / 2"
proof -
  have "s \<in> set [32..39] \<or> s \<in> set [40..47] \<or> s \<in> set [48..54] \<or> s \<in> set [55..61] \<or>
      s \<in> set [62..68]"
    unfolding set_upto atLeastAtMost_iff using assms by linarith
  then have "wave_bound (real_of_int s) \<le> 9 / 2"
    using wave_bound_32_39 wave_bound_40_47 wave_bound_48_54 wave_bound_55_61 wave_bound_62_68
    unfolding list_all_iff by blast
  with wave_le_bound [of "real_of_int s"] show ?thesis by linarith
qed

lemma sin_nonpos:
  assumes "- 2 \<le> y" "y \<le> 0"
  shows "sin y \<le> (0::real)"
proof -
  have "0 \<le> sin (- y)"
    using assms pi_ge_two by (intro sin_ge_zero) linarith+
  then show ?thesis by simp
qed

lemma wave_small:
  assumes "- 20 \<le> t" "t \<le> 20"
  shows "wave t \<le> 7 / 25 * max t 0"
proof (cases "0 \<le> t")
  case True
  then have "sin (t * 0.1) \<le> t * 0.1" "sin (t * 0.05) \<le> t * 0.05" "sin (t * 0.02) \<le> t * 0.02"
    by (intro sin_x_le_x; simp)+
  with True show ?thesis
    by (simp add: wave_def max_def)
next
  case False
  then have "sin (t * 0.1) \<le> 0" "sin (t * 0.05) \<le> 0" "sin (t * 0.02) \<le> 0"
    using assms by (intro sin_nonpos; simp)+
  with False show ?thesis
    by (simp add: wave_def max_def)
qed

lemma tall_prod:
  assumes "5 < voxelHeight x z"
  shows "5 \<le> noise (real_of_int x) (real_of_int z) * (1 - distFromCenter x z / maxDist)"
proof -
  have "5 \<le> \<lfloor>height x z\<rfloor>"
    using assms by (simp add: voxelHeight_def)
  then have "5 \<le> height x z"
    by (simp add: le_floor_iff)
  then show ?thesis
    by (simp add: height_def max_def split: if_splits)
qed

lemma falloff_poly: "(9 / 2 + 99 / 250 * d) * (1 - d / 20) < (5::real)"
proof -
  have "0 \<le> (d - 95 / 22)\<^sup>2" by simp
  then have "0 \<le> d * d - 95 / 11 * d + 9025 / 484"
    by (simp add: power2_eq_square algebra_simps)
  moreover have "(9 / 2 + 99 / 250 * d) * (1 - d / 20) =
      9 / 2 + 171 / 1000 * d - 99 / 5000 * (d * d)"
    by (simp add: field_simps)
  ultimately show ?thesis by linarith
qed

text \<open>
  Every included cell has \<open>voxelHeight \<le> 5\<close>: a higher column would need
  \<open>noise * falloff \<ge> 5\<close>, hence a distance below 13 from the centre, where
  \<open>noise \<le> 4.5 + 0.396 * distFromCenter\<close> and the falloff keep the product below 5.
\<close>

lemma short_columns:
  assumes inc: "distFromCenter x z < maxDist"
  shows "voxelHeight x z \<le> 5"
proof (rule ccontr)
  assume "\<not> voxelHeight x z \<le> 5"
  then have tall: "5 < voxelHeight x z" by simp
  define a c where "a = x - 25" and "c = z - 25"
  define d where "d = distFromCenter x z"
  have d_def': "d = sqrt (real_of_int (a\<^sup>2 + c\<^sup>2))"
    by (simp add: d_def distFromCenter_def center_25 a_def c_def)
  have d0: "0 \<le> d" by (simp add: d_def')
  have d13: "d < 13"
    unfolding d_def using inc tall by (rule tall_dist)
  have dd: "d * d = real_of_int (a\<^sup>2 + c\<^sup>2)"
    unfolding d_def' by simp
  have "d * d < 13 * 13"
    using d0 d13 by (intro mult_strict_mono') auto
  then have n: "a\<^sup>2 + c\<^sup>2 < 169"
    unfolding dd by linarith
  define P Q N where "P = (a + c)\<^sup>2" and "Q = (a - c)\<^sup>2" and "N = a\<^sup>2 + c\<^sup>2"
  have sq: "P + Q = 2 * N"
    unfolding P_def Q_def N_def by (simp add: power2_eq_square algebra_simps)
  have PQ: "0 \<le> P" "0 \<le> Q"
    unfolding P_def Q_def by simp_all
  have N169: "N < 169"
    using n by (simp add: N_def)
  have "P < 361"
    using sq PQ N169 by linarith
  then have "(a + c)\<^sup>2 < 361"
    by (simp add: P_def)
  then have "\<bar>a + c\<bar> < 19"
    using abs_le_square_iff [of 19 "a + c"] by (simp add: not_le [symmetric])
  then have s: "32 \<le> x + z" "x + z \<le> 68"
    by (simp_all add: a_def c_def)
  have "Q < 361"
    using sq PQ N169 by linarith
  then have "(a - c)\<^sup>2 < 361"
    by (simp add: Q_def)
  then have "\<bar>a - c\<bar> < 19"
    using abs_le_square_iff [of 19 "a - c"] by (simp add: not_le [symmetric])
  then have t: "- 20 \<le> real_of_int (x - z)" "real_of_int (x - z) \<le> 20"
    by (simp_all add: a_def c_def)
  have tsq: "(real_of_int (x - z))\<^sup>2 \<le> 2 * (d * d)"
  proof -
    have "Q \<le> 2 * N"
      using sq PQ by linarith
    then have "(a - c)\<^sup>2 \<le> 2 * (a\<^sup>2 + c\<^sup>2)"
      by (simp add: Q_def N_def)
    then have "real_of_int ((a - c)\<^sup>2) \<le> real_of_int (2 * (a\<^sup>2 + c\<^sup>2))"
      by (rule of_int_le_iff [THEN iffD2])
    then show ?thesis
      by (simp add: dd a_def c_def)
  qed
  have tle: "real_of_int (x - z) \<le> 99 / 70 * d"
  proof -
    have "(real_of_int (x - z))\<^sup>2 \<le> (99 / 70 * d)\<^sup>2"
    proof -
      have "2 * (d * d) \<le> (99 / 70 * d)\<^sup>2"
        using zero_le_square [of d] by (simp add: power2_eq_square algebra_simps)
      with tsq show ?thesis by linarith
    qed
    then have "\<bar>real_of_int (x - z)\<bar> \<le> \<bar>99 / 70 * d\<bar>"
      by (rule abs_le_square_iff [THEN iffD2])
    moreover have "\<bar>99 / 70 * d\<bar> = 99 / 70 * d"
      using d0 by simp
    ultimately show ?thesis by linarith
  qed
  have "max (real_of_int (x - z)) 0 \<le> 99 / 70 * d"
  proof (cases "0 \<le> real_of_int (x - z)")
    case True
    then have "max (real_of_int (x - z)) 0 = real_of_int (x - z)" by (rule max_absorb1)
    with tle show ?thesis by linarith
  next
    case False
    then have "max (real_of_int (x - z)) 0 = 0" by (intro max_absorb2) linarith
    moreover have "0 \<le> 99 / 70 * d" using d0 by simp
    ultimately show ?thesis by linarith
  qed
  moreover have "wave (real_of_int (x - z)) \<le> 7 / 25 * max (real_of_int (x - z)) 0"
    using t by (rule wave_small)
  moreover have "wave (real_of_int (x + z)) \<le> 9 / 2"
    using s by (rule wave_int_le)
  moreover have "noise (real_of_int x) (real_of_int z) =
      wave (real_of_int (x + z)) + wave (real_of_int (x - z))"
    by (simp add: noise_wave)
  ultimately have nb: "noise (real_of_int x) (real_of_int z) \<le> 9 / 2 + 99 / 250 * d"
    by (cases "0 \<le> real_of_int (x - z)") (simp_all add: max_def)
  have fall: "0 < 1 - d / 20"
    using inc by (simp add: d_def maxDist_20)
  have "noise (real_of_int x) (real_of_int z) * (1 - d / 20) \<le> (9 / 2 + 99 / 250 * d) * (1 - d / 20)"
    using nb fall by (intro mult_right_mono) auto
  also have "\<dots> < 5" by (rule falloff_poly)
  finally show False
    using tall_prod [OF tall] by (simp add: d_def maxDist_20)
qed

lemma column_short:
  assumes "0 \<le> vh" "vh \<le> 5"
  shows "column rnd x z vh (vd, k) =
     (vd @ map (\<lambda>y. \<lparr>position = (x - centerX, y, z - centerZ), color = color_at vh y\<rparr>) [0..vh], k)"
  using assms(2) by (simp add: column_eq [OF assms(1)])

lemma cell_fills:
  "cell rnd x z (vd, k) =
     (vd @ (if distFromCenter x z < maxDist
            then map (\<lambda>y. \<lparr>position = (x - centerX, y, z - centerZ),
                            color = color_at (voxelHeight x z) y\<rparr>) [0..voxelHeight x z]
            else []), k)"
proof (cases "distFromCenter x z < maxDist")
  case True
  have "0 \<le> voxelHeight x z"
    using voxelHeight_ge1 [of x z] by simp
  from column_short [OF this short_columns [OF True]] True show ?thesis
    by (simp add: cell_def)
next
  case False
  then show ?thesis by (simp add: cell_def)
qed

lemma fold_pushes:
  assumes "\<And>a vd k. f a (vd, k) = (vd @ g a, k)"
  shows "fold f xs (vd, k) = (vd @ concat (map g xs), k)"
  by (induction xs arbitrary: vd) (simp_all add: assms)

text \<open>
  The generated sequence in closed form: for each included cell in loop order, its fill
  voxels from elevation 0 to \<open>voxelHeight\<close>. No draw is ever made.
\<close>

lemma VoxelIsland_fills:
  "VoxelIsland rnd =
     concat (map (\<lambda>x. concat (map (\<lambda>z.
         if distFromCenter x z < maxDist
         then map (\<lambda>y. \<lparr>position = (x - centerX, y, z - centerZ),
                         color = color_at (voxelHeight x z) y\<rparr>) [0..voxelHeight x z]
         else []) [0..size_island - 1])) [0..size_island - 1])"
proof -
  let ?col = "\<lambda>x z. if distFromCenter x z < maxDist
         then map (\<lambda>y. \<lparr>position = (x - centerX, y, z - centerZ),
                         color = color_at (voxelHeight x z) y\<rparr>) [0..voxelHeight x z]
         else []"
  have row: "fold (\<lambda>z. cell rnd x z) zs (vd, k) = (vd @ concat (map (?col x) zs), k)" for x zs vd k
    by (rule fold_pushes) (rule cell_fills)
  have "fold (\<lambda>x. fold (\<lambda>z. cell rnd x z) zs) xs (vd, k) =
      (vd @ concat (map (\<lambda>x. concat (map (?col x) zs)) xs), k)" for xs zs vd k
    by (rule fold_pushes) (rule row)
  then show ?thesis
    by (simp add: VoxelIsland_def)
qed

lemma VoxelIsland_voxel:
  assumes "v \<in> set (VoxelIsland rnd)"
  shows "\<exists>x z y. 0 \<le> x \<and> x < size_island \<and> 0 \<le> z \<and> z < size_island \<and>
           distFromCenter x z < maxDist \<and> 0 \<le> y \<and> y \<le> voxelHeight x z \<and>
           v = \<lparr>position = (x - centerX, y, z - centerZ), color = color_at (voxelHeight x z) y\<rparr>"
proof -
  from assms obtain x z where x: "x \<in> set [0..size_island - 1]" and z: "z \<in> set [0..size_island - 1]"
    and v: "v \<in> set (if distFromCenter x z < maxDist
         then map (\<lambda>y. \<lparr>position = (x - centerX, y, z - centerZ),
                         color = color_at (voxelHeight x z) y\<rparr>) [0..voxelHeight x z]
         else [])"
    unfolding VoxelIsland_fills by auto
  then have inc: "distFromCenter x z < maxDist"
    by (auto split: if_splits)
  with v obtain y where "y \<in> set [0..voxelHeight x z]"
    "v = \<lparr>position = (x - centerX, y, z - centerZ), color = color_at (voxelHeight x z) y\<rparr>"
    by auto
  with x z inc show ?thesis
    by (intro exI [of _ x] exI [of _ z] exI [of _ y]) simp
qed

lemma VoxelIsland_draws: "VoxelIsland rnd = VoxelIsland rnd'"
  by (simp add: VoxelIsland_fills)

text \<open>
  Claim C3. For every included column \<open>(x, z)\<close> of the grid and every elevation \<open>y\<close> from 0
  to \<open>voxelHeight\<close>, the colour the generator gives the fill voxel is bedrock when
  \<open>y = 0\<close>, else grass when \<open>y = voxelHeight\<close> and \<open>y > 3\<close>, else sand when
  \<open>y = voxelHeight\<close> and \<open>y \<le> 3\<close>, else dirt; the voxel with that colour is in the generated
  sequence; and the topmost fill voxel is sand iff \<open>voxelHeight \<le> 3\<close> and grass iff
  \<open>voxelHeight > 3\<close>. (The source tests \<open>y = 0\<close> last; the two orders agree because
  \<open>voxelHeight\<close> is at least 1.)
\<close>

theorem fill_colors:
  assumes "0 \<le> x" "x < size_island" "0 \<le> z" "z < size_island"
    and "distFromCenter x z < maxDist" "0 \<le> y" "y \<le> voxelHeight x z"
  shows "color_at (voxelHeight x z) y =
           (if y = 0 then bedrock
            else if y = voxelHeight x z \<and> y > 3 then grass
            else if y = voxelHeight x z \<and> y \<le> 3 then sand
            else dirt)
         \<and> \<lparr>position = (x - centerX, y, z - centerZ), color = color_at (voxelHeight x z) y\<rparr>
             \<in> set (VoxelIsland rnd)
         \<and> (color_at (voxelHeight x z) (voxelHeight x z) = sand) = (voxelHeight x z \<le> 3)
         \<and> (color_at (voxelHeight x z) (voxelHeight x z) = grass) = (voxelHeight x z > 3)"
proof (intro conjI)
  show "color_at (voxelHeight x z) y =
           (if y = 0 then bedrock
            else if y = voxelHeight x z \<and> y > 3 then grass
            else if y = voxelHeight x z \<and> y \<le> 3 then sand
            else dirt)"
    using voxelHeight_ge1 [of x z] by (simp add: color_at_def)
  show "\<lparr>position = (x - centerX, y, z - centerZ), color = color_at (voxelHeight x z) y\<rparr>
      \<in> set (VoxelIsland rnd)"
    using assms by (rule island_fill_mem)
  show "(color_at (voxelHeight x z) (voxelHeight x z) = sand) = (voxelHeight x z \<le> 3)"
    by (simp add: color_at_def)
  show "(color_at (voxelHeight x z) (voxelHeight x z) = grass) = (voxelHeight x z > 3)"
    by (simp add: color_at_def)
qed

text \<open>
  Claim C3 at the centre column \<open>(25, 25)\<close> and elevation 0.
\<close>

theorem fill_colors_witness:
  "distFromCenter 25 25 < maxDist \<and> 0 \<le> voxelHeight 25 25 \<and>
   color_at (voxelHeight 25 25) 0 = bedrock \<and>
   \<lparr>position = (0, 0, 0), color = color_at (voxelHeight 25 25) 0\<rparr> \<in> set (VoxelIsland (\<lambda>_. 1))"
proof -
  have inc: "distFromCenter 25 25 < maxDist"
    by (simp add: included_iff)
  have vh: "0 \<le> voxelHeight 25 25"
    using voxelHeight_ge1 [of 25 25] by simp
  show ?thesis
    using fill_colors [of 25 25 0 "\<lambda>_. 1", OF _ _ _ _ inc _ vh] inc vh
    by (auto simp add: size_island_def center_25)
qed

text \<open>
  Claim C4. For every grid cell \<open>(x, z)\<close>, the generated sequence holds a voxel standing
  on that cell if and only if the cell's distance from the island centre is strictly less
  than \<open>0.4 * size\<close>, whatever the random draws.
\<close>

theorem coastline:
  assumes "0 \<le> x" "x < size_island" "0 \<le> z" "z < size_island"
  shows "(\<exists>v \<in> set (VoxelIsland rnd).
            fst (position v) = x - centerX \<and> snd (snd (position v)) = z - centerZ)
         = (distFromCenter x z < 0.4 * real_of_int size_island)"
proof
  assume "\<exists>v \<in> set (VoxelIsland rnd).
      fst (position v) = x - centerX \<and> snd (snd (position v)) = z - centerZ"
  then obtain v where v: "v \<in> set (VoxelIsland rnd)"
    and p: "fst (position v) = x - centerX" "snd (snd (position v)) = z - centerZ"
    by blast
  from island_voxels [OF v] obtain x' z' where "distFromCenter x' z' < maxDist"
    "column_voxel x' z' (voxelHeight x' z') v"
    by blast
  then have "(fst (position v))\<^sup>2 + (snd (snd (position v)))\<^sup>2 < 400"
    by (rule column_voxel_included)
  then have "distFromCenter x z < maxDist"
    by (simp add: p center_25 included_iff)
  then show "distFromCenter x z < 0.4 * real_of_int size_island"
    by (simp add: maxDist_def)
next
  assume "distFromCenter x z < 0.4 * real_of_int size_island"
  then have inc: "distFromCenter x z < maxDist"
    by (simp add: maxDist_def)
  have "\<lparr>position = (x - centerX, 0, z - centerZ), color = color_at (voxelHeight x z) 0\<rparr>
      \<in> set (VoxelIsland rnd)"
    using assms inc voxelHeight_ge1 [of x z] by (intro island_fill_mem) simp_all
  then show "\<exists>v \<in> set (VoxelIsland rnd).
      fst (position v) = x - centerX \<and> snd (snd (position v)) = z - centerZ"
    by (rule bexI [rotated]) simp
qed

text \<open>
  Claim C4 at the centre cell \<open>(25, 25)\<close>, which is included, and at the corner cell
  \<open>(0, 0)\<close>, which is not.
\<close>

theorem coastline_witness:
  "(\<exists>v \<in> set (VoxelIsland (\<lambda>_. 1)). fst (position v) = 0 \<and> snd (snd (position v)) = 0) \<and>
   distFromCenter 25 25 < 0.4 * real_of_int size_island \<and>
   \<not> (\<exists>v \<in> set (VoxelIsland (\<lambda>_. 1)). fst (position v) = - 25 \<and> snd (snd (position v)) = - 25) \<and>
   \<not> distFromCenter 0 0 < 0.4 * real_of_int size_island"
proof -
  have a: "distFromCenter 25 25 < 0.4 * real_of_int size_island"
    using included_iff [of 25 25] by (simp add: maxDist_def)
  have b: "\<not> distFromCenter 0 0 < 0.4 * real_of_int size_island"
    using included_iff [of 0 0] by (simp add: maxDist_def)
  show ?thesis
    using coastline [of 25 25 "\<lambda>_. 1"] coastline [of 0 0 "\<lambda>_. 1"] a b
    by (simp add: size_island_def center_25)
qed

text \<open>
  Claim C5. The column loop places a tree exactly when the column's top elevation exceeds
  5 (its top voxel is then grass) and the draw made for the column is below 0.02. A
  placed tree is two trunk voxels at elevations \<open>voxelHeight + 1\<close> and \<open>voxelHeight + 2\<close>
  followed by the leaf voxels among the 18 candidates of the \<open>3 \<times> 3 \<times> 2\<close> canopy
  (\<open>dx\<close>, \<open>dz\<close> from -1 to 1, elevations \<open>voxelHeight + 3\<close> and \<open>voxelHeight + 4\<close>), candidate
  \<open>i\<close> being included exactly when its own draw, the \<open>i\<close>-th after the column's, is below
  0.7. With draws uniform on \<open>[0, 1)\<close> these thresholds are the probabilities 0.02 and 0.7,
  and distinct draws make the choices independent.
\<close>

theorem tree_placement:
  assumes "0 \<le> vh"
  shows "column rnd x z vh (vd, k) =
     (if 5 < vh \<and> rnd k < 0.02
      then (vd @ map (\<lambda>y. \<lparr>position = (x - centerX, y, z - centerZ), color = color_at vh y\<rparr>) [0..vh - 1]
               @ [\<lparr>position = (x - centerX, vh + 1, z - centerZ), color = dirt\<rparr>,
                  \<lparr>position = (x - centerX, vh + 2, z - centerZ), color = dirt\<rparr>]
               @ concat (map (\<lambda>i. if rnd (Suc k + i) < 0.7
                            then [(\<lambda>(dx, dz, dy). \<lparr>position = (x - centerX + dx, vh + 3 + dy, z - centerZ + dz),
                                                       color = grass\<rparr>)
                                   (List.product [-1..1] (List.product [-1..1] [0..1]) ! i)]
                            else []) [0..<18])
               @ [\<lparr>position = (x - centerX, vh, z - centerZ), color = color_at vh vh\<rparr>], k + 19)
      else (vd @ map (\<lambda>y. \<lparr>position = (x - centerX, y, z - centerZ), color = color_at vh y\<rparr>) [0..vh],
            if 5 < vh then Suc k else k))
     \<and> (5 < vh \<longrightarrow> color_at vh vh = grass)
     \<and> (distFromCenter x z < maxDist \<longrightarrow> cell rnd x z (vd, k) = column rnd x z (voxelHeight x z) (vd, k))"
  unfolding column_eq [OF assms] by (simp add: tree_eq color_at_def cell_def)

text \<open>
  Claim C5 at a column of height 6: with every draw 0 the tree and all 18 leaves are
  placed (7 fill voxels, 2 trunk voxels, 18 leaves, 19 draws); with every draw 1 no tree
  is placed.
\<close>

theorem tree_placement_witness:
  "(0::int) \<le> 6 \<and> (5::int) < 6 \<and> color_at 6 6 = grass \<and>
   snd (column (\<lambda>_. 0) 25 25 6 ([], 0)) = 19 \<and>
   length (fst (column (\<lambda>_. 0) 25 25 6 ([], 0))) = 27 \<and>
   length (fst (column (\<lambda>_. 1) 25 25 6 ([], 0))) = 7"
  using tree_placement [of 6 "\<lambda>_. 0" 25 25 "[]" 0] tree_placement [of 6 "\<lambda>_. 1" 25 25 "[]" 0]
  by simp

text \<open>
  The order in which the column loop emits a tree: the fill voxels at elevations 0 to
  \<open>vh - 1\<close>, then the tree's voxels (the two trunk voxels first), then the column's top
  fill voxel. It needs a column higher than 5, which the grid does not have
  (\<open>short_columns\<close>).
\<close>

lemma column_tree_order:
  assumes "5 < vh" "rnd k < 0.02"
  shows "fst (column rnd x z vh (vd, k)) =
           vd @ map (\<lambda>y. \<lparr>position = (x - centerX, y, z - centerZ), color = color_at vh y\<rparr>) [0..vh - 1]
              @ fst (tree rnd x vh z ([], Suc k))
              @ [\<lparr>position = (x - centerX, vh, z - centerZ), color = color_at vh vh\<rparr>]
         \<and> take 2 (fst (tree rnd x vh z ([], Suc k))) =
             [\<lparr>position = (x - centerX, vh + 1, z - centerZ), color = dirt\<rparr>,
              \<lparr>position = (x - centerX, vh + 2, z - centerZ), color = dirt\<rparr>]"
proof -
  have "0 \<le> vh" using assms(1) by simp
  from column_eq [OF this, of rnd x z vd k] assms show ?thesis
    by (simp add: tree_eq)
qed



text \<open>
  Claim C6. Every voxel of the generated sequence at elevation 0 is bedrock, and every
  voxel stands on an included column of the grid at an elevation of at most that
  column's \<open>voxelHeight\<close> plus 4.
\<close>

theorem voxel_invariants:
  "\<forall>v \<in> set (VoxelIsland rnd).
     (fst (snd (position v)) = 0 \<longrightarrow> color v = bedrock) \<and>
     (\<exists>x z. 0 \<le> x \<and> x < size_island \<and> 0 \<le> z \<and> z < size_island \<and>
            distFromCenter x z < maxDist \<and>
            fst (position v) = x - centerX \<and> snd (snd (position v)) = z - centerZ \<and>
            fst (snd (position v)) \<le> voxelHeight x z + 4)"
proof
  fix v
  assume "v \<in> set (VoxelIsland rnd)"
  from VoxelIsland_voxel [OF this] obtain x z y where r: "0 \<le> x" "x < size_island" "0 \<le> z" "z < size_island"
    and inc: "distFromCenter x z < maxDist" and y: "0 \<le> y" "y \<le> voxelHeight x z"
    and v: "v = \<lparr>position = (x - centerX, y, z - centerZ), color = color_at (voxelHeight x z) y\<rparr>"
    by blast
  have "fst (snd (position v)) = 0 \<longrightarrow> color v = bedrock"
    using voxelHeight_ge1 [of x z] by (simp add: v color_at_def)
  moreover have "\<exists>x z. 0 \<le> x \<and> x < size_island \<and> 0 \<le> z \<and> z < size_island \<and>
            distFromCenter x z < maxDist \<and>
            fst (position v) = x - centerX \<and> snd (snd (position v)) = z - centerZ \<and>
            fst (snd (position v)) \<le> voxelHeight x z + 4"
    using r inc y by (intro exI [of _ x] exI [of _ z]) (simp add: v)
  ultimately show "(fst (snd (position v)) = 0 \<longrightarrow> color v = bedrock) \<and>
     (\<exists>x z. 0 \<le> x \<and> x < size_island \<and> 0 \<le> z \<and> z < size_island \<and>
            distFromCenter x z < maxDist \<and>
            fst (position v) = x - centerX \<and> snd (snd (position v)) = z - centerZ \<and>
            fst (snd (position v)) \<le> voxelHeight x z + 4)"
    by blast
qed

text \<open>
  Claim C6 at the bedrock voxel of the centre column, which every generated sequence holds.
\<close>

theorem voxel_invariants_witness:
  "\<lparr>position = (0, 0, 0), color = bedrock\<rparr> \<in> set (VoxelIsland (\<lambda>_. 0)) \<and>
   (\<exists>x z. 0 \<le> x \<and> x < size_island \<and> 0 \<le> z \<and> z < size_island \<and>
          distFromCenter x z < maxDist \<and> 0 = x - centerX \<and> 0 = z - centerZ \<and>
          0 \<le> voxelHeight x z + 4)"
  using voxel_invariants [of "\<lambda>_. 0"] origin_bedrock [of "\<lambda>_. 0"]
  by fastforce

text \<open>
  Claim C8. With \<open>size = 50\<close> and whatever the random draws, the generated sequence is not
  empty, every voxel is at a distance of less than 20 from the centre in the \<open>x\<close>-\<open>z\<close>
  plane, and some voxel is bedrock.
\<close>

theorem island_50:
  "size_island = 50 \<and> VoxelIsland rnd \<noteq> [] \<and>
   (\<forall>v \<in> set (VoxelIsland rnd).
      sqrt (real_of_int ((fst (position v))\<^sup>2 + (snd (snd (position v)))\<^sup>2)) < 20) \<and>
   (\<exists>v \<in> set (VoxelIsland rnd). color v = bedrock)"
proof (intro conjI ballI)
  show "size_island = 50" by (simp add: size_island_def)
  show "VoxelIsland rnd \<noteq> []"
    using origin_bedrock [of rnd] by auto
  show "\<exists>v \<in> set (VoxelIsland rnd). color v = bedrock"
    using origin_bedrock [of rnd] by (rule bexI [rotated]) simp
  fix v
  assume "v \<in> set (VoxelIsland rnd)"
  from island_voxels [OF this] obtain x z where "distFromCenter x z < maxDist"
    "column_voxel x z (voxelHeight x z) v"
    by blast
  then have "(fst (position v))\<^sup>2 + (snd (snd (position v)))\<^sup>2 < 400"
    by (rule column_voxel_included)
  then have "real_of_int ((fst (position v))\<^sup>2 + (snd (snd (position v)))\<^sup>2) < 400"
    by linarith
  then show "sqrt (real_of_int ((fst (position v))\<^sup>2 + (snd (snd (position v)))\<^sup>2)) < 20"
    by (subst sqrt_lt_20) simp_all
qed

text \<open>
  Claim C8 at the bedrock voxel of the centre column: it is in the sequence, at distance 0.
\<close>

theorem island_50_witness:
  "\<lparr>position = (0, 0, 0), color = bedrock\<rparr> \<in> set (VoxelIsland (\<lambda>_. 0)) \<and>
   sqrt (real_of_int ((fst (position \<lparr>position = (0, 0, 0), color = bedrock\<rparr>))\<^sup>2 +
      (snd (snd (position \<lparr>position = (0, 0, 0), color = bedrock\<rparr>)))\<^sup>2)) < 20 \<and>
   VoxelIsland (\<lambda>_. 0) \<noteq> []"
  using island_50 [of "\<lambda>_. 0"] origin_bedrock [of "\<lambda>_. 0"]
  by auto

lemma dist_center: "distFromCenter 25 25 = 0"
  by (simp add: distFromCenter_def centerX_def centerZ_def size_island_def)

text \<open>
  Claim C1 as stated fails: at the centre column \<open>(25, 25)\<close>, which is included, the column
  height is not the floor of the clamped, scaled height sample.
\<close>

theorem voxelHeight_counterexample:
  "distFromCenter 25 25 < maxDist \<and>
   voxelHeight 25 25 \<noteq> \<lfloor>max 0 (noise 25 25 * (1 - distFromCenter 25 25 / maxDist))\<rfloor>"
  by (simp add: voxelHeight_def height_def dist_center maxDist_20)

text \<open>
  Claim C1, as amended. For every grid cell \<open>(x, z)\<close>, \<open>voxelHeight\<close> is the floor of
  \<open>max(0, H(x, z) * (1 - distFromCenter / maxDist))\<close> plus one, where
  \<open>H(x, z) = sin(0.1x)cos(0.1z)*2 + sin(0.05x)cos(0.05z)*4 + sin(0.02x)cos(0.02z)*8\<close> and
  \<open>maxDist = 0.4 * size\<close>; for an included cell the column loop runs \<open>y\<close> from 0 to that
  value.
\<close>

theorem voxelHeight_floor_plus_one:
  "voxelHeight x z =
     \<lfloor>max 0 ((sin (0.1 * real_of_int x) * cos (0.1 * real_of_int z) * 2 +
              sin (0.05 * real_of_int x) * cos (0.05 * real_of_int z) * 4 +
              sin (0.02 * real_of_int x) * cos (0.02 * real_of_int z) * 8) *
             (1 - sqrt (real_of_int ((x - 25) ^ 2 + (z - 25) ^ 2)) / (0.4 * real_of_int size_island)))\<rfloor> + 1
   \<and> (distFromCenter x z < maxDist \<longrightarrow>
        cell rnd x z st = fold (level rnd x z (voxelHeight x z)) [0..voxelHeight x z] st)"
  by (simp add: voxelHeight_def height_def noise_def distFromCenter_def maxDist_def
      centerX_def centerZ_def cell_def column_def size_island_def mult.commute)

text \<open>
  The amended claim C1 at the centre column \<open>(25, 25)\<close>.
\<close>

theorem voxelHeight_floor_plus_one_witness:
  "distFromCenter 25 25 < maxDist \<and>
   cell (\<lambda>_. 0) 25 25 ([], 0) = fold (level (\<lambda>_. 0) 25 25 (voxelHeight 25 25)) [0..voxelHeight 25 25] ([], 0)"
  using voxelHeight_floor_plus_one [of 25 25 "\<lambda>_. 0" "([], 0)"]
  by (simp add: dist_center maxDist_20)

end
